theory Spec2Isabelle
  imports Main "HOL-Library.Sublist"
begin

section \<open>Text primitives\<close>

text \<open>
  Query text, taxonomy words and catalog fields are Python \<^verbatim>\<open>str\<close> values. They are
  modelled as \<^typ>\<open>string\<close>; the model covers ASCII text: \<^verbatim>\<open>str.lower\<close> and
  \<^verbatim>\<open>str.upper\<close> move the 26 letters and leave every other character alone, and
  the whitespace class of the regular expression is the ASCII part of Python's
  (codes 9 to 13, 28 to 31 and 32).
\<close>

definition lower_char :: "char \<Rightarrow> char" where
  "lower_char c =
     (let n = (of_char c :: nat) in if 65 \<le> n \<and> n \<le> 90 then char_of (n + 32) else c)"

definition upper_char :: "char \<Rightarrow> char" where
  "upper_char c =
     (let n = (of_char c :: nat) in if 97 \<le> n \<and> n \<le> 122 then char_of (n - 32) else c)"

text \<open>\<^verbatim>\<open>s.lower()\<close> and \<^verbatim>\<open>s.upper()\<close>.\<close>

definition lower :: "string \<Rightarrow> string" where
  "lower s = map lower_char s"

definition upper :: "string \<Rightarrow> string" where
  "upper s = map upper_char s"

text \<open>What \<^verbatim>\<open>\s\<close> matches.\<close>

definition is_space :: "char \<Rightarrow> bool" where
  "is_space c =
     (let n = (of_char c :: nat) in (9 \<le> n \<and> n \<le> 13) \<or> (28 \<le> n \<and> n \<le> 32))"

text \<open>\<^verbatim>\<open>s.startswith(p)\<close>, and \<^verbatim>\<open>sub in s\<close> on two strings.\<close>

fun starts_with :: "string \<Rightarrow> string \<Rightarrow> bool" where
  "starts_with s [] = True"
| "starts_with [] (p # ps) = False"
| "starts_with (c # cs) (p # ps) = (c = p \<and> starts_with cs ps)"

fun str_contains :: "string \<Rightarrow> string \<Rightarrow> bool" where
  "str_contains sub [] = (sub = [])"
| "str_contains sub (c # cs) = (starts_with (c # cs) sub \<or> str_contains sub cs)"

section \<open>Query interpreter: size\<close>

text \<open>
  \<^verbatim>\<open>re.search(r"r\s*(1[4-9])", query.lower())\<close>.

  \<open>match_here\<close> is the attempt to match the pattern at the head of the text: the
  literal \<^verbatim>\<open>r\<close>, then \<^verbatim>\<open>\s*\<close>, which takes the whole run of whitespace (a shorter
  run leaves a whitespace character where \<^verbatim>\<open>1\<close> is required, so backtracking never
  helps), then the group \<^verbatim>\<open>1[4-9]\<close>. It gives \<^verbatim>\<open>group(1)\<close>. \<open>re_search\<close>
  tries the start positions from left to right and stops at the first that matches.
\<close>

definition rim_digit :: "char \<Rightarrow> bool" where
  "rim_digit d = (d \<in> set ''456789'')"

fun match_here :: "string \<Rightarrow> string option" where
  "match_here [] = None"
| "match_here (c # cs) =
     (if c = CHR ''r'' then
        (case dropWhile is_space cs of
           d1 # d2 # _ \<Rightarrow> if d1 = CHR ''1'' \<and> rim_digit d2 then Some [d1, d2] else None
         | _ \<Rightarrow> None)
      else None)"

fun re_search :: "string \<Rightarrow> string option" where
  "re_search [] = None"
| "re_search (c # cs) =
     (case match_here (c # cs) of Some g \<Rightarrow> Some g | None \<Rightarrow> re_search cs)"

definition extract_size :: "string \<Rightarrow> string option" where
  "extract_size query =
     (case re_search (lower query) of Some g \<Rightarrow> Some (CHR ''R'' # g) | None \<Rightarrow> None)"

text \<open>
  \<^verbatim>\<open>tire_match_size(tire_size, target_size)\<close>. \<^verbatim>\<open>not target_size\<close> holds for
  \<^verbatim>\<open>None\<close> and for the empty string.
\<close>

definition tire_match_size :: "string \<Rightarrow> string option \<Rightarrow> bool" where
  "tire_match_size tire_size target_size =
     (case target_size of
        None \<Rightarrow> True
      | Some ts \<Rightarrow> if ts = [] then True else str_contains ts (upper tire_size))"

section \<open>Query interpreter: categories and brand\<close>

text \<open>
  The keyword mapping is a \<^verbatim>\<open>dict\<close> from a category name to its list of trigger
  words: an association list in the order of the file, with distinct keys.
  \<^verbatim>\<open>d.get(key, default)\<close> is \<open>dict_get\<close>.
\<close>

type_synonym keyword_mapping = "(string \<times> string list) list"

definition dict_get :: "('k \<times> 'v) list \<Rightarrow> 'k \<Rightarrow> 'v \<Rightarrow> 'v" where
  "dict_get d key dflt = (case map_of d key of None \<Rightarrow> dflt | Some v \<Rightarrow> v)"

text \<open>
  \<^verbatim>\<open>matched\<close> is a Python set, kept here as a list without repetition;
  \<^verbatim>\<open>list(matched)\<close> is that list (Python fixes no order for it, and
  \<open>filter_tires\<close> looks only at its elements).
\<close>

definition set_add :: "'a \<Rightarrow> 'a list \<Rightarrow> 'a list" where
  "set_add x matched = (if x \<in> set matched then matched else matched @ [x])"

fun words_loop :: "string \<Rightarrow> string \<Rightarrow> string list \<Rightarrow> string list \<Rightarrow> string list" where
  "words_loop q category [] matched = matched"
| "words_loop q category (w # ws) matched =
     words_loop q category ws
       (if str_contains (lower w) q then set_add category matched else matched)"

fun mapping_loop :: "string \<Rightarrow> keyword_mapping \<Rightarrow> string list \<Rightarrow> string list" where
  "mapping_loop q [] matched = matched"
| "mapping_loop q ((category, words) # rest) matched =
     (if category \<in> set [''brand'', ''size''] then mapping_loop q rest matched
      else mapping_loop q rest (words_loop q category words matched))"

definition extract_categories :: "string \<Rightarrow> keyword_mapping \<Rightarrow> string list" where
  "extract_categories query keyword_mapping = mapping_loop (lower query) keyword_mapping []"

fun brand_loop :: "string \<Rightarrow> string list \<Rightarrow> string option" where
  "brand_loop q [] = None"
| "brand_loop q (b # bs) = (if str_contains (lower b) q then Some b else brand_loop q bs)"

definition extract_brand :: "string \<Rightarrow> string list \<Rightarrow> string option" where
  "extract_brand query brand_keywords = brand_loop (lower query) brand_keywords"

section \<open>Catalog items and the deterministic filter\<close>

text \<open>
  A value read by \<^verbatim>\<open>json.load\<close>. Numbers are integers here; no claim looks at one.
\<close>

datatype json =
    JNull
  | JBool bool
  | JNum int
  | JStr string
  | JArr "json list"
  | JObj "(string \<times> json) list"

text \<open>
  A catalog item is a \<^verbatim>\<open>dict\<close> read with \<^verbatim>\<open>t.get(key, default)\<close>: each of the four
  keys the filter reads may be absent (\<open>None\<close>); when present, the brand names and the
  size are strings and the categories a list of strings. The other keys are carried
  along untouched.
\<close>

record tire =
  brand_cn :: "string option"
  brand_en :: "string option"
  tire_size :: "string option"
  categories :: "string list option"
  other_fields :: "(string \<times> json) list"

definition get_or :: "'a option \<Rightarrow> 'a \<Rightarrow> 'a" where
  "get_or field dflt = (case field of None \<Rightarrow> dflt | Some v \<Rightarrow> v)"

text \<open>
  The body of the loop of \<open>filter_tires\<close> for one item: \<open>False\<close> where the source
  reaches a \<^verbatim>\<open>continue\<close>, \<open>True\<close> where it reaches \<^verbatim>\<open>result.append(t)\<close>.
  \<^verbatim>\<open>if target_brand\<close> and \<^verbatim>\<open>if categories\<close> are Python truth tests.
\<close>

definition brand_continue :: "string option \<Rightarrow> tire \<Rightarrow> bool" where
  "brand_continue target_brand t =
     (case target_brand of
        None \<Rightarrow> False
      | Some b \<Rightarrow>
          if b = [] then False
          else \<not> str_contains b (get_or (brand_cn t) []) \<and> \<not> str_contains b (get_or (brand_en t) []))"

definition category_continue :: "string list \<Rightarrow> tire \<Rightarrow> bool" where
  "category_continue cats t =
     (if cats = [] then False
      else (let tire_categories = get_or (categories t) [] in
            \<not> list_ex (\<lambda>c. c \<in> set tire_categories) cats))"

definition appended :: "string list \<Rightarrow> string option \<Rightarrow> string option \<Rightarrow> tire \<Rightarrow> bool" where
  "appended cats target_size target_brand t =
     (if brand_continue target_brand t then False
      else if \<not> tire_match_size (get_or (tire_size t) []) target_size then False
      else if category_continue cats t then False
      else True)"

fun filter_loop ::
  "string list \<Rightarrow> string option \<Rightarrow> string option \<Rightarrow> tire list \<Rightarrow> tire list \<Rightarrow> tire list" where
  "filter_loop cats target_size target_brand [] result = result"
| "filter_loop cats target_size target_brand (t # ts) result =
     filter_loop cats target_size target_brand ts
       (if appended cats target_size target_brand t then result @ [t] else result)"

definition filter_tires ::
  "tire list \<Rightarrow> string list \<Rightarrow> string option \<Rightarrow> string option \<Rightarrow> tire list" where
  "filter_tires tires cats target_size target_brand =
     filter_loop cats target_size target_brand tires []"

section \<open>Fallback policy and ranking orchestrator\<close>

text \<open>\<^verbatim>\<open>xs[:n]\<close> for a Python integer \<open>n\<close>: a negative \<open>n\<close> counts from the end.\<close>

definition slice_to :: "'a list \<Rightarrow> int \<Rightarrow> 'a list" where
  "slice_to xs n = (if 0 \<le> n then take (nat n) xs else take (length xs - nat (- n)) xs)"

text \<open>
  The candidates of \<open>ai_search_and_rank\<close>: the three extractions, the filter, and the
  first 50 items of the catalog when the filter leaves nothing.
\<close>

definition ai_candidates :: "string \<Rightarrow> tire list \<Rightarrow> keyword_mapping \<Rightarrow> tire list" where
  "ai_candidates query tires keyword_mapping =
     (let target_size = extract_size query;
          target_brand = extract_brand query (dict_get keyword_mapping ''brand'' []);
          cats = extract_categories query keyword_mapping;
          candidates = filter_tires tires cats target_size target_brand
      in if candidates = [] then slice_to tires 50 else candidates)"

text \<open>
  The external ranking service is a parameter. It is given the key, and what the
  prompt is built from: the query, \<open>max_results\<close> and the candidates. Its outcome is
  what the first two statements of the \<^verbatim>\<open>try\<close> block produce: an exception (from
  the request, from reading the reply, or from \<^verbatim>\<open>json.loads\<close>), or the parsed value.
  Building the client from a string key and serialising the candidates do not fail.
\<close>

datatype exn = NetworkError | Timeout | NoContent | ParseError

type_synonym ranker = "string \<Rightarrow> string \<Rightarrow> int \<Rightarrow> tire list \<Rightarrow> exn + json"

text \<open>
  The result holds either values of the reply or catalog items.
\<close>

datatype result_item = Ranked json | Candidate tire

text \<open>
  The \<^verbatim>\<open>try\<close> block: \<open>Inl e\<close> when \<open>e\<close> is raised in it, \<open>Inr (Some r)\<close> when it
  returns \<open>r\<close> (the reply is a list), \<open>Inr None\<close> when it ends without returning.
\<close>

definition try_block :: "exn + json \<Rightarrow> int \<Rightarrow> exn + result_item list option" where
  "try_block outcome max_results =
     (case outcome of
        Inl e \<Rightarrow> Inl e
      | Inr parsed \<Rightarrow>
          (case parsed of
             JArr xs \<Rightarrow> Inr (Some (map Ranked (slice_to xs max_results)))
           | _ \<Rightarrow> Inr None))"

text \<open>
  \<open>ai_search_and_rank\<close>; \<open>Inl e\<close> would be an exception that reaches the caller.
  The handler \<^verbatim>\<open>except Exception\<close> prints and goes on to the last \<^verbatim>\<open>return\<close>.
\<close>

definition ai_search_and_rank ::
  "ranker \<Rightarrow> string \<Rightarrow> tire list \<Rightarrow> keyword_mapping \<Rightarrow> string \<Rightarrow> int \<Rightarrow> exn + result_item list" where
  "ai_search_and_rank rank query tires keyword_mapping api_key max_results =
     (let candidates = ai_candidates query tires keyword_mapping in
      case try_block (rank api_key query max_results candidates) max_results of
        Inl e \<Rightarrow> Inr (map Candidate (slice_to candidates max_results))
      | Inr (Some result) \<Rightarrow> Inr result
      | Inr None \<Rightarrow> Inr (map Candidate (slice_to candidates max_results)))"

section \<open>Catalog store\<close>

text \<open>
  The file at \<^verbatim>\<open>DATA_PATH\<close>: absent, present with text that is not JSON, or present
  with a JSON document.
\<close>

datatype resource = Missing | NotJson | Document json

datatype load_error = FileNotFoundError | JSONDecodeError | SchemaValueError | TypeError

text \<open>
  \<^verbatim>\<open>key in data\<close> for a string \<open>key\<close>: a key of a \<^verbatim>\<open>dict\<close>, an element of a
  \<^verbatim>\<open>list\<close>, a substring of a \<^verbatim>\<open>str\<close>; a \<^verbatim>\<open>TypeError\<close> on a number, a boolean or
  \<^verbatim>\<open>None\<close>.
\<close>

fun py_in :: "string \<Rightarrow> json \<Rightarrow> load_error + bool" where
  "py_in key (JObj kvs) = Inr (key \<in> set (map fst kvs))"
| "py_in key (JArr xs) = Inr (JStr key \<in> set xs)"
| "py_in key (JStr s) = Inr (str_contains key s)"
| "py_in key _ = Inl TypeError"

definition load_data :: "resource \<Rightarrow> load_error + json" where
  "load_data r =
     (case r of
        Missing \<Rightarrow> Inl FileNotFoundError
      | NotJson \<Rightarrow> Inl JSONDecodeError
      | Document data \<Rightarrow>
          (case py_in ''tires'' data of
             Inl e \<Rightarrow> Inl e
           | Inr has_tires \<Rightarrow>
               if \<not> has_tires then Inl SchemaValueError
               else (case py_in ''keyword_mapping'' data of
                       Inl e \<Rightarrow> Inl e
                     | Inr has_mapping \<Rightarrow>
                         if \<not> has_mapping then Inl SchemaValueError else Inr data)))"

section \<open>The notions of the specification\<close>

text \<open>
  A rim token of the text \<open>s\<close> at index \<open>i\<close>: the letter r at \<open>i\<close>, then \<open>k\<close>
  whitespace characters, then the two digits \<open>d1\<close> and \<open>d2\<close>. Its diameter is the
  number the two digits write. A rim pattern is a rim token with a diameter between 14
  and 19.
\<close>

definition is_digit :: "char \<Rightarrow> bool" where
  "is_digit c = (let n = (of_char c :: nat) in 48 \<le> n \<and> n \<le> 57)"

definition diameter :: "char \<Rightarrow> char \<Rightarrow> nat" where
  "diameter d1 d2 = 10 * (of_char d1 - 48) + (of_char d2 - 48)"

definition rim_token_at :: "string \<Rightarrow> nat \<Rightarrow> nat \<Rightarrow> char \<Rightarrow> char \<Rightarrow> bool" where
  "rim_token_at s i k d1 d2 =
     (case drop i s of
        [] \<Rightarrow> False
      | c # cs \<Rightarrow>
          c = CHR ''r'' \<and> list_all is_space (take k cs) \<and> take 2 (drop k cs) = [d1, d2] \<and>
          is_digit d1 \<and> is_digit d2)"

definition rim_pattern_at :: "string \<Rightarrow> nat \<Rightarrow> nat \<Rightarrow> char \<Rightarrow> char \<Rightarrow> bool" where
  "rim_pattern_at s i k d1 d2 =
     (rim_token_at s i k d1 d2 \<and> 14 \<le> diameter d1 d2 \<and> diameter d1 d2 \<le> 19)"

text \<open>
  The three sub-predicates of the filter, each true when its intent field is absent or
  empty. A substring is a contiguous sublist (\<^const>\<open>sublist\<close>).
\<close>

definition brand_predicate :: "string option \<Rightarrow> tire \<Rightarrow> bool" where
  "brand_predicate target_brand t =
     (case target_brand of
        None \<Rightarrow> True
      | Some b \<Rightarrow> b = [] \<or> sublist b (get_or (brand_cn t) []) \<or> sublist b (get_or (brand_en t) []))"

definition size_predicate :: "string option \<Rightarrow> tire \<Rightarrow> bool" where
  "size_predicate target_size t =
     (case target_size of
        None \<Rightarrow> True
      | Some ts \<Rightarrow> ts = [] \<or> sublist ts (upper (get_or (tire_size t) [])))"

definition category_predicate :: "string list \<Rightarrow> tire \<Rightarrow> bool" where
  "category_predicate cats t =
     (cats = [] \<or> set (get_or (categories t) []) \<inter> set cats \<noteq> {})"

definition item_predicate :: "string list \<Rightarrow> string option \<Rightarrow> string option \<Rightarrow> tire \<Rightarrow> bool" where
  "item_predicate cats target_size target_brand t =
     (brand_predicate target_brand t \<and> size_predicate target_size t \<and> category_predicate cats t)"

section \<open>The three-item catalog of the end-to-end scenario\<close>

text \<open>
  The scenario gives each item one brand. The catalog is written twice: with the brand
  under \<^verbatim>\<open>brand_en\<close> and \<^verbatim>\<open>brand_cn\<close> absent, and the other way round.
\<close>

definition item_en :: "string \<Rightarrow> string \<Rightarrow> string list \<Rightarrow> tire" where
  "item_en brand sz cats =
     \<lparr>brand_cn = None, brand_en = Some brand, tire_size = Some sz, categories = Some cats,
      other_fields = []\<rparr>"

definition item_cn :: "string \<Rightarrow> string \<Rightarrow> string list \<Rightarrow> tire" where
  "item_cn brand sz cats =
     \<lparr>brand_cn = Some brand, brand_en = None, tire_size = Some sz, categories = Some cats,
      other_fields = []\<rparr>"

definition scenario_catalog :: "(string \<Rightarrow> string \<Rightarrow> string list \<Rightarrow> tire) \<Rightarrow> tire list" where
  "scenario_catalog item =
     [item ''Brand1'' ''205/55R16'' [''comfort''],
      item ''Brand2'' ''225/45R17'' [''sport''],
      item ''Brand1'' ''205/55R17'' [''sport'']]"

definition scenario_mapping :: keyword_mapping where
  "scenario_mapping = [(''sport'', [''sport'']), (''brand'', [''Brand1'', ''Brand2''])]"

text \<open>
  The deterministic part of the search on a query: the three extractions, then the
  filter, as the first statements of \<open>ai_search_and_rank\<close> run them.
\<close>

definition deterministic_filter :: "string \<Rightarrow> tire list \<Rightarrow> keyword_mapping \<Rightarrow> tire list" where
  "deterministic_filter query tires keyword_mapping =
     filter_tires tires (extract_categories query keyword_mapping) (extract_size query)
       (extract_brand query (dict_get keyword_mapping ''brand'' []))"

section \<open>Rankers and catalogs for the examples\<close>



text \<open>A catalog of sixty items of size R16.\<close>

definition sixty_items :: "tire list" where
  "sixty_items = replicate 60 (item_en ''Brand1'' ''205/55R16'' [''comfort''])"

section \<open>Facts about the text primitives\<close>

lemma lower_simps [simp]: "lower [] = []" "lower (c # cs) = lower_char c # lower cs"
  by (simp_all add: lower_def)

lemma upper_simps [simp]: "upper [] = []" "upper (c # cs) = upper_char c # upper cs"
  by (simp_all add: upper_def)

text \<open>The two functions for \<^verbatim>\<open>startswith\<close> and \<^verbatim>\<open>in\<close> compute prefix and substring.\<close>

lemma starts_with_prefix: "starts_with s p = prefix p s"
  by (induction s p rule: starts_with.induct) auto

lemma str_contains_sublist: "str_contains sub s = sublist sub s"
  by (induction s) (auto simp: starts_with_prefix sublist_Cons_right)

text \<open>Characters and their codes.\<close>

lemma char_code_eq: "(of_char c :: nat) = of_char d \<longleftrightarrow> c = d"
  by (rule of_char_eq_iff)

lemma char_1: "(of_char c :: nat) = 49 \<longleftrightarrow> c = CHR ''1''"
  using char_code_eq [of c "CHR ''1''"] by simp

lemma rim_digit_iff: "rim_digit d \<longleftrightarrow> 52 \<le> (of_char d :: nat) \<and> (of_char d :: nat) \<le> 57"
proof
  assume "rim_digit d" then show "52 \<le> (of_char d :: nat) \<and> (of_char d :: nat) \<le> 57"
    by (auto simp: rim_digit_def)
next
  assume a: "52 \<le> (of_char d :: nat) \<and> (of_char d :: nat) \<le> 57"
  then have "(of_char d :: nat) \<in> {52, 53, 54, 55, 56, 57}" by auto
  then have "(of_char d :: nat) \<in> of_char ` set ''456789''" by simp
  then have "d \<in> set ''456789''" 
    using char_code_eq by (metis (no_types, lifting) imageE)
  then show "rim_digit d" by (simp add: rim_digit_def)
qed

text \<open>
  Two digits write a number between 14 and 19 exactly when the first is 1 and the
  second is in the class \<^verbatim>\<open>[4-9]\<close>.
\<close>

lemma diameter_range:
  "is_digit d1 \<and> is_digit d2 \<and> 14 \<le> diameter d1 d2 \<and> diameter d1 d2 \<le> 19
     \<longleftrightarrow> d1 = CHR ''1'' \<and> rim_digit d2"
  unfolding rim_digit_iff char_1[symmetric] is_digit_def diameter_def Let_def
  by arith

lemma not_space_1: "\<not> is_space (CHR ''1'')" by (simp add: is_space_def)

section \<open>The regular expression search finds the leftmost rim pattern\<close>

lemma rim_pattern_at_Cons:
  "rim_pattern_at (c # cs) 0 k d1 d2 \<longleftrightarrow>
     c = CHR ''r'' \<and> list_all is_space (take k cs) \<and> take 2 (drop k cs) = [d1, d2] \<and>
     d1 = CHR ''1'' \<and> rim_digit d2"
  using diameter_range [of d1 d2] by (auto simp: rim_pattern_at_def rim_token_at_def)

lemma skip_spaces_found:
  assumes "list_all is_space (take k cs)" and "take 2 (drop k cs) = [CHR ''1'', d]"
  shows "\<exists>rest. dropWhile is_space cs = CHR ''1'' # d # rest"
proof -
  from assms(2) obtain rest where r: "drop k cs = CHR ''1'' # d # rest"
    by (cases "drop k cs"; cases "tl (drop k cs)") auto
  have "cs = take k cs @ CHR ''1'' # d # rest" using r by (metis append_take_drop_id)
  then have "dropWhile is_space cs = dropWhile is_space (take k cs @ CHR ''1'' # d # rest)" by simp
  also have "\<dots> = dropWhile is_space (CHR ''1'' # d # rest)"
    using assms(1) by (intro dropWhile_append2) (simp add: list_all_iff)
  also have "\<dots> = CHR ''1'' # d # rest" using not_space_1 by simp
  finally show ?thesis by blast
qed

lemma skip_spaces_pattern:
  assumes "dropWhile is_space cs = d1 # d2 # rest"
  shows "\<exists>k. list_all is_space (take k cs) \<and> take 2 (drop k cs) = [d1, d2]"
proof (intro exI conjI)
  let ?k = "length (takeWhile is_space cs)"
  show "list_all is_space (take ?k cs)"
    by (simp add: takeWhile_eq_take [symmetric] list_all_iff) (meson set_takeWhileD)
  show "take 2 (drop ?k cs) = [d1, d2]"
    using assms by (simp add: dropWhile_eq_drop [symmetric])
qed

lemma match_here_iff:
  "match_here t = Some g \<longleftrightarrow> (\<exists>k d1 d2. rim_pattern_at t 0 k d1 d2 \<and> g = [d1, d2])"
proof (cases t)
  case Nil
  then show ?thesis by (simp add: rim_pattern_at_def rim_token_at_def)
next
  case (Cons c cs)
  show ?thesis
  proof
    assume "match_here t = Some g"
    with Cons obtain d2 rest where
      "c = CHR ''r''" "dropWhile is_space cs = CHR ''1'' # d2 # rest" "rim_digit d2" "g = [CHR ''1'', d2]"
      by (auto split: if_splits list.splits)
    with skip_spaces_pattern [of cs "CHR ''1''" d2 rest] Cons
    show "\<exists>k d1 d2. rim_pattern_at t 0 k d1 d2 \<and> g = [d1, d2]"
      by (auto simp: rim_pattern_at_Cons)
  next
    assume "\<exists>k d1 d2. rim_pattern_at t 0 k d1 d2 \<and> g = [d1, d2]"
    then obtain k d2 where p: "c = CHR ''r''" "list_all is_space (take k cs)"
      "take 2 (drop k cs) = [CHR ''1'', d2]" "rim_digit d2" "g = [CHR ''1'', d2]"
      using Cons by (auto simp: rim_pattern_at_Cons)
    from skip_spaces_found [OF p(2,3)] obtain rest where
      "dropWhile is_space cs = CHR ''1'' # d2 # rest" by blast
    with p Cons show "match_here t = Some g" by simp
  qed
qed

lemma rim_pattern_at_drop: "rim_pattern_at (drop i s) 0 k d1 d2 = rim_pattern_at s i k d1 d2"
  by (simp add: rim_pattern_at_def rim_token_at_def)

lemma match_here_None_iff:
  "match_here t = None \<longleftrightarrow> (\<forall>k d1 d2. \<not> rim_pattern_at t 0 k d1 d2)"
proof (cases "match_here t")
  case None
  then show ?thesis using match_here_iff [of t] by (metis option.distinct(1))
next
  case (Some g)
  then show ?thesis using match_here_iff [of t g] by auto
qed

lemma re_search_Some_iff:
  "re_search s = Some g \<longleftrightarrow>
     (\<exists>i. match_here (drop i s) = Some g \<and> (\<forall>j<i. match_here (drop j s) = None))"
proof (induction s)
  case Nil
  then show ?case by simp
next
  case (Cons c cs)
  show ?case
  proof (cases "match_here (c # cs)")
    case None
    have "re_search (c # cs) = Some g \<longleftrightarrow> re_search cs = Some g" using None by simp
    also have "\<dots> \<longleftrightarrow> (\<exists>i. match_here (drop i cs) = Some g \<and> (\<forall>j<i. match_here (drop j cs) = None))"
      by (rule Cons.IH)
    also have "\<dots> \<longleftrightarrow> (\<exists>i. match_here (drop i (c # cs)) = Some g \<and> (\<forall>j<i. match_here (drop j (c # cs)) = None))"
      (is "?L \<longleftrightarrow> ?R")
    proof
      assume ?L
      then obtain i where i: "match_here (drop i cs) = Some g" "\<forall>j<i. match_here (drop j cs) = None"
        by blast
      have "\<forall>j<Suc i. match_here (drop j (c # cs)) = None"
      proof (intro allI impI)
        fix j assume "j < Suc i"
        then show "match_here (drop j (c # cs)) = None"
          using None i(2) by (cases j) auto
      qed
      with i(1) show ?R by (intro exI [of _ "Suc i"]) simp
    next
      assume ?R
      then obtain i where i: "match_here (drop i (c # cs)) = Some g"
        "\<forall>j<i. match_here (drop j (c # cs)) = None" by blast
      with None obtain i' where "i = Suc i'" by (cases i) auto
      with i have "match_here (drop i' cs) = Some g" "\<forall>j<i'. match_here (drop j cs) = None"
        by (auto dest: spec [of _ "Suc _"])
      then show ?L by blast
    qed
    finally show ?thesis .
  next
    case (Some g')
    have "re_search (c # cs) = Some g \<longleftrightarrow> g' = g" using Some by auto
    also have "\<dots> \<longleftrightarrow> (\<exists>i. match_here (drop i (c # cs)) = Some g \<and> (\<forall>j<i. match_here (drop j (c # cs)) = None))"
    proof
      assume "g' = g"
      with Some show "\<exists>i. match_here (drop i (c # cs)) = Some g \<and> (\<forall>j<i. match_here (drop j (c # cs)) = None)"
        by (intro exI [of _ 0]) simp
    next
      assume "\<exists>i. match_here (drop i (c # cs)) = Some g \<and> (\<forall>j<i. match_here (drop j (c # cs)) = None)"
      then obtain i where i: "match_here (drop i (c # cs)) = Some g"
        "\<forall>j<i. match_here (drop j (c # cs)) = None" by blast
      have "i = 0"
      proof (rule ccontr)
        assume "i \<noteq> 0"
        then have "match_here (drop 0 (c # cs)) = None" using i(2) by blast
        with Some show False by simp
      qed
      with i(1) Some show "g' = g" by simp
    qed
    finally show ?thesis .
  qed
qed

lemma re_search_None_iff: "re_search s = None \<longleftrightarrow> (\<forall>i. match_here (drop i s) = None)"
proof (induction s)
  case Nil
  then show ?case by simp
next
  case (Cons c cs)
  show ?case
  proof (cases "match_here (c # cs)")
    case None
    have "(\<forall>i. match_here (drop i (c # cs)) = None) \<longleftrightarrow> (\<forall>i. match_here (drop i cs) = None)"
    proof
      assume a: "\<forall>i. match_here (drop i (c # cs)) = None"
      show "\<forall>i. match_here (drop i cs) = None"
      proof
        fix i from a have "match_here (drop (Suc i) (c # cs)) = None" by blast
        then show "match_here (drop i cs) = None" by simp
      qed
    next
      assume a: "\<forall>i. match_here (drop i cs) = None"
      show "\<forall>i. match_here (drop i (c # cs)) = None"
      proof
        fix i show "match_here (drop i (c # cs)) = None" using a None by (cases i) auto
      qed
    qed
    with None Cons.IH show ?thesis by simp
  next
    case (Some g')
    then have "\<not> (\<forall>i. match_here (drop i (c # cs)) = None)"
      by (metis drop0 option.distinct(1))
    with Some show ?thesis by simp
  qed
qed

lemma extract_size_Some_iff:
  "extract_size q = Some r \<longleftrightarrow>
     (\<exists>i k d1 d2. rim_pattern_at (lower q) i k d1 d2 \<and>
        (\<forall>j<i. \<forall>k' e1 e2. \<not> rim_pattern_at (lower q) j k' e1 e2) \<and>
        r = [CHR ''R'', d1, d2])"
proof -
  have "extract_size q = Some r \<longleftrightarrow> (\<exists>g. re_search (lower q) = Some g \<and> r = CHR ''R'' # g)"
    by (auto simp: extract_size_def split: option.splits)
  also have "\<dots> \<longleftrightarrow> (\<exists>g i. match_here (drop i (lower q)) = Some g \<and>
       (\<forall>j<i. match_here (drop j (lower q)) = None) \<and> r = CHR ''R'' # g)"
    by (simp add: re_search_Some_iff) blast
  also have "\<dots> \<longleftrightarrow> (\<exists>i k d1 d2. rim_pattern_at (lower q) i k d1 d2 \<and>
        (\<forall>j<i. \<forall>k' e1 e2. \<not> rim_pattern_at (lower q) j k' e1 e2) \<and>
        r = [CHR ''R'', d1, d2])"
    by (simp add: match_here_iff match_here_None_iff rim_pattern_at_drop) blast
  finally show ?thesis .
qed

lemma extract_size_None_iff:
  "extract_size q = None \<longleftrightarrow> (\<forall>i k d1 d2. \<not> rim_pattern_at (lower q) i k d1 d2)"
proof -
  have "extract_size q = None \<longleftrightarrow> re_search (lower q) = None"
    by (simp add: extract_size_def split: option.splits)
  then show ?thesis
    by (simp add: re_search_None_iff match_here_None_iff rim_pattern_at_drop)
qed

lemma rim_pattern_same_start:
  assumes "rim_pattern_at s i k d1 d2" and "rim_pattern_at s i k' e1 e2"
  shows "d1 = e1 \<and> d2 = e2"
proof -
  from assms(1) obtain g where "match_here (drop i s) = Some g" "g = [d1, d2]"
    using match_here_iff [of "drop i s"] by (auto simp: rim_pattern_at_drop)
  moreover from assms(2) have "match_here (drop i s) = Some [e1, e2]"
    using match_here_iff [of "drop i s" "[e1, e2]"] by (auto simp: rim_pattern_at_drop)
  ultimately show ?thesis by simp
qed

lemma no_pattern_before:
  assumes "\<forall>j<i. match_here (drop j s) = None"
  shows "\<forall>j<i. \<forall>k' e1 e2. rim_pattern_at s j k' e1 e2 \<longrightarrow> P e1 e2"
  using assms match_here_None_iff rim_pattern_at_drop by blast

lemma all_less_5: "(\<forall>j<5::nat. P j) \<longleftrightarrow> P 0 \<and> P 1 \<and> P 2 \<and> P 3 \<and> P 4"
proof -
  have "\<And>j::nat. j < 5 \<longleftrightarrow> j = 0 \<or> j = 1 \<or> j = 2 \<or> j = 3 \<or> j = 4" by arith
  then show ?thesis by auto
qed

lemma r20_tokens:
  "rim_token_at ''r20'' i k d1 d2 \<Longrightarrow> d1 = CHR ''2'' \<and> d2 = CHR ''0''"
  apply (cases i)
   apply (cases k)
    apply (simp add: rim_token_at_def)
   apply (simp add: rim_token_at_def)
   apply (rename_tac k', case_tac k')
    apply (simp add: rim_token_at_def)
   apply (simp add: rim_token_at_def)
  apply (rename_tac i', case_tac i')
   apply (simp add: rim_token_at_def)
  apply (rename_tac i'', case_tac i'')
   apply (simp add: rim_token_at_def)
  apply (simp add: rim_token_at_def)
  done

text \<open>
  C4. \<open>extract_size\<close> returns R followed by the two digits of the first rim pattern of
  the lower-cased query, in left-to-right order of the start index: the letter r, any
  number of whitespace characters, and a two-digit number between 14 and 19. It returns
  nothing exactly when the lower-cased query has no rim pattern.
\<close>

theorem extract_size_first_match:
  "(extract_size q = Some r \<longleftrightarrow>
     (\<exists>i k d1 d2. rim_pattern_at (lower q) i k d1 d2 \<and>
        (\<forall>j<i. \<forall>k' e1 e2. \<not> rim_pattern_at (lower q) j k' e1 e2) \<and>
        r = [CHR ''R'', d1, d2])) \<and>
   (extract_size q = None \<longleftrightarrow> (\<forall>i k d1 d2. \<not> rim_pattern_at (lower q) i k d1 d2))"
  using extract_size_Some_iff [of q r] extract_size_None_iff [of q] by blast

theorem extract_size_first_match_witness:
  "extract_size ''Fit R 17 or r15'' = Some ''R17'' \<and>
   (\<exists>i k d1 d2. rim_pattern_at (lower ''Fit R 17 or r15'') i k d1 d2 \<and>
        (\<forall>j<i. \<forall>k' e1 e2. \<not> rim_pattern_at (lower ''Fit R 17 or r15'') j k' e1 e2) \<and>
        ''R17'' = [CHR ''R'', d1, d2])"
proof -
  have e: "extract_size ''Fit R 17 or r15'' = Some ''R17''"
    by code_simp
  with extract_size_first_match [of "''Fit R 17 or r15''" "''R17''"] show ?thesis
    by blast
qed

text \<open>
  C2, as the code has it. A query with a rim pattern of diameter 16, before which no rim
  pattern of another diameter starts, gives R16; and a query whose rim tokens (r,
  whitespace, two digits) all have a diameter outside 14 to 19 gives nothing. The claim
  as written, R16 for every query that contains r16, fails where a rim pattern of
  another diameter comes first: the first match wins.
\<close>

theorem extract_size_r16:
  "(rim_pattern_at (lower q) i k (CHR ''1'') (CHR ''6'') \<and>
    (\<forall>j<i. \<forall>k' e1 e2. rim_pattern_at (lower q) j k' e1 e2 \<longrightarrow> e1 = CHR ''1'' \<and> e2 = CHR ''6'')
      \<longrightarrow> extract_size q = Some ''R16'') \<and>
   ((\<forall>i k d1 d2. rim_token_at (lower q) i k d1 d2 \<longrightarrow> \<not> (14 \<le> diameter d1 d2 \<and> diameter d1 d2 \<le> 19))
      \<longrightarrow> extract_size q = None)"
proof (intro conjI impI)
  assume a: "rim_pattern_at (lower q) i k (CHR ''1'') (CHR ''6'') \<and>
    (\<forall>j<i. \<forall>k' e1 e2. rim_pattern_at (lower q) j k' e1 e2 \<longrightarrow> e1 = CHR ''1'' \<and> e2 = CHR ''6'')"
  obtain r where r: "extract_size q = Some r"
    using a extract_size_None_iff [of q] by (cases "extract_size q") auto
  then obtain i' k' d1 d2 where f: "rim_pattern_at (lower q) i' k' d1 d2"
     "\<forall>j<i'. \<forall>k' e1 e2. \<not> rim_pattern_at (lower q) j k' e1 e2" "r = [CHR ''R'', d1, d2]"
    using extract_size_Some_iff [of q r] by blast
  have "\<not> i < i'" using f(2) a by blast
  then have "i' < i \<or> i' = i" by arith
  then have "d1 = CHR ''1'' \<and> d2 = CHR ''6''"
  proof
    assume "i' < i" with a f(1) show ?thesis by blast
  next
    assume "i' = i"
    with a f(1) show ?thesis using rim_pattern_same_start by blast
  qed
  with r f(3) show "extract_size q = Some ''R16''" by simp
next
  assume "\<forall>i k d1 d2. rim_token_at (lower q) i k d1 d2 \<longrightarrow> \<not> (14 \<le> diameter d1 d2 \<and> diameter d1 d2 \<le> 19)"
  then have "\<forall>i k d1 d2. \<not> rim_pattern_at (lower q) i k d1 d2"
    by (simp add: rim_pattern_at_def)
  then show "extract_size q = None" by (simp add: extract_size_None_iff)
qed

theorem extract_size_r16_witness:
  "rim_pattern_at (lower ''Size R 16 please'') 5 1 (CHR ''1'') (CHR ''6'') \<and>
   extract_size ''Size R 16 please'' = Some ''R16'' \<and> extract_size ''r20'' = None"
proof -
  have p: "rim_pattern_at (lower ''Size R 16 please'') 5 1 (CHR ''1'') (CHR ''6'')"
    by code_simp
  have "\<forall>j<5. match_here (drop j (lower ''Size R 16 please'')) = None"
    unfolding all_less_5 by code_simp
  then have b: "\<forall>j<5. \<forall>k' e1 e2. rim_pattern_at (lower ''Size R 16 please'') j k' e1 e2
       \<longrightarrow> e1 = CHR ''1'' \<and> e2 = CHR ''6''"
    by (rule no_pattern_before)
  have l: "lower ''r20'' = ''r20''" by code_simp
  have "diameter (CHR ''2'') (CHR ''0'') = 20" by (simp add: diameter_def)
  then have t: "\<forall>i k d1 d2. rim_token_at (lower ''r20'') i k d1 d2 \<longrightarrow>
       \<not> (14 \<le> diameter d1 d2 \<and> diameter d1 d2 \<le> 19)"
    unfolding l using r20_tokens by fastforce
  from extract_size_r16 [of "''Size R 16 please''" 5 1] p b
  have "extract_size ''Size R 16 please'' = Some ''R16''" by blast
  moreover from extract_size_r16 [of "''r20''"] t have "extract_size ''r20'' = None" by blast
  ultimately show ?thesis using p by blast
qed

text \<open>
  The query \<^verbatim>\<open>r14 r16\<close> contains r16 and the result is R14.
\<close>

theorem extract_size_r16_counter:
  "str_contains ''r16'' (lower ''r14 r16'') \<and> extract_size ''r14 r16'' = Some ''R14'' \<and>
   extract_size ''r14 r16'' \<noteq> Some ''R16''"
  by code_simp

text \<open>
  C10. The pattern of \<open>extract_size\<close> has no word boundary: in the query
  \<^verbatim>\<open>super 16\<close> the letter r ends the word "super", and the size token R16 is
  returned all the same.
\<close>

theorem extract_size_no_word_boundary: "extract_size ''super 16'' = Some ''R16''"
  by code_simp

section \<open>The brand is the first trigger of the taxonomy that occurs in the query\<close>

lemma brand_loop_Some_iff:
  "brand_loop q bs = Some b \<longleftrightarrow>
     (\<exists>i<length bs. bs ! i = b \<and> sublist (lower b) q \<and> (\<forall>j<i. \<not> sublist (lower (bs ! j)) q))"
proof (induction bs)
  case Nil
  then show ?case by simp
next
  case (Cons a bs)
  show ?case
  proof (cases "sublist (lower a) q")
    case True
    have "(\<exists>i<length (a # bs). (a # bs) ! i = b \<and> sublist (lower b) q \<and>
            (\<forall>j<i. \<not> sublist (lower ((a # bs) ! j)) q)) \<longleftrightarrow> a = b"
    proof
      assume "\<exists>i<length (a # bs). (a # bs) ! i = b \<and> sublist (lower b) q \<and>
            (\<forall>j<i. \<not> sublist (lower ((a # bs) ! j)) q)"
      then obtain i where i: "(a # bs) ! i = b" "\<forall>j<i. \<not> sublist (lower ((a # bs) ! j)) q"
        by blast
      have "i = 0"
      proof (rule ccontr)
        assume "i \<noteq> 0"
        then have "\<not> sublist (lower ((a # bs) ! 0)) q" using i(2) by blast
        with True show False by simp
      qed
      with i(1) show "a = b" by simp
    next
      assume "a = b"
      with True show "\<exists>i<length (a # bs). (a # bs) ! i = b \<and> sublist (lower b) q \<and>
            (\<forall>j<i. \<not> sublist (lower ((a # bs) ! j)) q)"
        by (intro exI [of _ 0]) simp
    qed
    with True show ?thesis by (simp add: str_contains_sublist)
  next
    case False
    have "(\<exists>i<length (a # bs). (a # bs) ! i = b \<and> sublist (lower b) q \<and>
            (\<forall>j<i. \<not> sublist (lower ((a # bs) ! j)) q)) \<longleftrightarrow>
          (\<exists>i<length bs. bs ! i = b \<and> sublist (lower b) q \<and> (\<forall>j<i. \<not> sublist (lower (bs ! j)) q))"
      (is "?L \<longleftrightarrow> ?R")
    proof
      assume ?L
      then obtain i where i: "i < length (a # bs)" "(a # bs) ! i = b" "sublist (lower b) q"
        "\<forall>j<i. \<not> sublist (lower ((a # bs) ! j)) q" by blast
      with False obtain i' where i': "i = Suc i'" by (cases i) auto
      have "\<forall>j<i'. \<not> sublist (lower (bs ! j)) q"
      proof (intro allI impI)
        fix j assume "j < i'"
        then have "Suc j < i" using i' by simp
        with i(4) have "\<not> sublist (lower ((a # bs) ! Suc j)) q" by blast
        then show "\<not> sublist (lower (bs ! j)) q" by simp
      qed
      with i i' show ?R by (intro exI [of _ i']) simp
    next
      assume ?R
      then obtain i where i: "i < length bs" "bs ! i = b" "sublist (lower b) q"
        "\<forall>j<i. \<not> sublist (lower (bs ! j)) q" by blast
      have "\<forall>j<Suc i. \<not> sublist (lower ((a # bs) ! j)) q"
      proof (intro allI impI)
        fix j assume "j < Suc i"
        then show "\<not> sublist (lower ((a # bs) ! j)) q" using False i(4) by (cases j) auto
      qed
      with i show ?L by (intro exI [of _ "Suc i"]) simp
    qed
    with False Cons.IH show ?thesis by (simp add: str_contains_sublist)
  qed
qed

lemma brand_loop_None_iff:
  "brand_loop q bs = None \<longleftrightarrow> (\<forall>t\<in>set bs. \<not> sublist (lower t) q)"
  by (induction bs) (simp_all add: str_contains_sublist)

lemma brand_loop_mem: "brand_loop q bs = Some b \<Longrightarrow> b \<in> set bs"
  by (induction bs) (auto split: if_splits)

text \<open>
  C7. \<open>extract_brand\<close> returns the trigger \<open>b\<close>, as stored, exactly when \<open>b\<close> stands
  at an index of the brand list, its lower-cased form is a substring of the lower-cased
  query, and no trigger at a smaller index has that property; it returns nothing
  exactly when no trigger of the list has it; so a returned value is an element of the
  list.
\<close>

theorem extract_brand_first_trigger:
  "(extract_brand q bs = Some b \<longleftrightarrow>
      (\<exists>i<length bs. bs ! i = b \<and> sublist (lower b) (lower q) \<and>
         (\<forall>j<i. \<not> sublist (lower (bs ! j)) (lower q)))) \<and>
   (extract_brand q bs = None \<longleftrightarrow> (\<forall>t\<in>set bs. \<not> sublist (lower t) (lower q))) \<and>
   (extract_brand q bs = Some b \<longrightarrow> b \<in> set bs)"
  unfolding extract_brand_def
  using brand_loop_Some_iff [of "lower q" bs b] brand_loop_None_iff [of "lower q" bs]
    brand_loop_mem [of "lower q" bs b]
  by blast

theorem extract_brand_first_trigger_witness:
  "extract_brand ''i like brand2 then BRAND1'' [''Acme'', ''Brand1'', ''Brand2''] = Some ''Brand1'' \<and>
   ''Brand1'' \<in> set [''Acme'', ''Brand1'', ''Brand2''] \<and>
   (\<exists>i<length [''Acme'', ''Brand1'', ''Brand2''].
      [''Acme'', ''Brand1'', ''Brand2''] ! i = ''Brand1'' \<and>
      sublist (lower ''Brand1'') (lower ''i like brand2 then BRAND1'') \<and>
      (\<forall>j<i. \<not> sublist (lower ([''Acme'', ''Brand1'', ''Brand2''] ! j))
                 (lower ''i like brand2 then BRAND1'')))"
proof -
  have "extract_brand ''i like brand2 then BRAND1'' [''Acme'', ''Brand1'', ''Brand2''] = Some ''Brand1''"
    by code_simp
  with extract_brand_first_trigger
    [of "''i like brand2 then BRAND1''" "[''Acme'', ''Brand1'', ''Brand2'']" "''Brand1''"]
  show ?thesis by blast
qed

section \<open>The deterministic filter\<close>

lemma brand_continue_iff: "brand_continue target_brand t = (\<not> brand_predicate target_brand t)"
  by (auto simp: brand_continue_def brand_predicate_def str_contains_sublist split: option.splits)

lemma tire_match_size_iff:
  "tire_match_size (get_or (tire_size t) []) target_size = size_predicate target_size t"
  by (auto simp: tire_match_size_def size_predicate_def str_contains_sublist split: option.splits)

lemma category_continue_iff: "category_continue cats t = (\<not> category_predicate cats t)"
  by (auto simp: category_continue_def category_predicate_def list_ex_iff)

lemma appended_iff: "appended cats target_size target_brand t = item_predicate cats target_size target_brand t"
  by (simp add: appended_def item_predicate_def brand_continue_iff tire_match_size_iff
      category_continue_iff)

lemma filter_loop_eq:
  "filter_loop cats ts tb tires result = result @ filter (appended cats ts tb) tires"
  by (induction tires arbitrary: result) simp_all

lemma filter_tires_eq: "filter_tires tires cats ts tb = filter (item_predicate cats ts tb) tires"
proof -
  have "appended cats ts tb = item_predicate cats ts tb" by (rule ext) (rule appended_iff)
  then show ?thesis by (simp add: filter_tires_def filter_loop_eq)
qed

lemma item_predicate_no_intent: "item_predicate [] None None t"
  by (simp add: item_predicate_def brand_predicate_def size_predicate_def category_predicate_def)

text \<open>The filter looks only at the elements of the category list, not at its order.\<close>

lemma filter_tires_cats_set:
  "set cats = set cats' \<Longrightarrow> filter_tires tires cats ts tb = filter_tires tires cats' ts tb"
proof -
  assume s: "set cats = set cats'"
  then have "cats = [] \<longleftrightarrow> cats' = []" by (metis set_empty)
  with s have "item_predicate cats ts tb = item_predicate cats' ts tb"
    by (simp add: item_predicate_def [abs_def] category_predicate_def)
  then show ?thesis by (simp add: filter_tires_eq)
qed

text \<open>
  C3. \<open>filter_tires\<close> returns the items of the catalog, in catalog order, that satisfy
  the brand, size and category predicates together. Each predicate holds of every item
  when its intent field is absent or empty, and with no brand, no size and no category
  the catalog is returned as it is.
\<close>

theorem filter_tires_is_filter:
  "filter_tires tires cats target_size target_brand =
     filter (\<lambda>t. brand_predicate target_brand t \<and> size_predicate target_size t \<and>
                 category_predicate cats t) tires \<and>
   brand_predicate None t \<and> brand_predicate (Some []) t \<and>
   size_predicate None t \<and> size_predicate (Some []) t \<and> category_predicate [] t \<and>
   filter_tires tires [] None None = tires"
proof -
  have "filter_tires tires [] None None = tires"
    by (simp add: filter_tires_eq item_predicate_no_intent)
  moreover have "filter_tires tires cats target_size target_brand =
     filter (\<lambda>t. brand_predicate target_brand t \<and> size_predicate target_size t \<and>
                 category_predicate cats t) tires"
    using filter_tires_eq [of tires cats target_size target_brand]
    by (simp add: item_predicate_def [abs_def])
  ultimately show ?thesis
    by (simp add: brand_predicate_def size_predicate_def category_predicate_def)
qed

theorem filter_tires_is_filter_witness:
  "filter (\<lambda>t. brand_predicate (Some ''Brand1'') t \<and> size_predicate (Some ''R17'') t \<and>
               category_predicate [''sport''] t) (scenario_catalog item_en) =
     [item_en ''Brand1'' ''205/55R17'' [''sport'']] \<and>
   filter_tires (scenario_catalog item_en) [] None None = scenario_catalog item_en"
proof -
  have "filter_tires (scenario_catalog item_en) [''sport''] (Some ''R17'') (Some ''Brand1'') =
      [item_en ''Brand1'' ''205/55R17'' [''sport'']]"
    by code_simp
  with filter_tires_is_filter
    [of "scenario_catalog item_en" "[''sport'']" "Some ''R17''" "Some ''Brand1''"]
  show ?thesis by simp
qed

text \<open>
  C8. Filtering the result of \<open>filter_tires\<close> again with the same intent changes
  nothing.
\<close>

theorem filter_tires_idempotent:
  "filter_tires (filter_tires tires cats target_size target_brand) cats target_size target_brand =
     filter_tires tires cats target_size target_brand"
  by (simp add: filter_tires_eq)

theorem filter_tires_idempotent_witness:
  "filter_tires [item_en ''Brand2'' ''225/45R17'' [''sport''],
                 item_en ''Brand1'' ''205/55R17'' [''sport'']] [''sport''] (Some ''R17'') None =
     [item_en ''Brand2'' ''225/45R17'' [''sport''], item_en ''Brand1'' ''205/55R17'' [''sport'']]"
proof -
  have "filter_tires (scenario_catalog item_en) [''sport''] (Some ''R17'') None =
      [item_en ''Brand2'' ''225/45R17'' [''sport''], item_en ''Brand1'' ''205/55R17'' [''sport'']]"
    by code_simp
  with filter_tires_idempotent [of "scenario_catalog item_en" "[''sport'']" "Some ''R17''" None]
  show ?thesis by simp
qed

text \<open>
  C5. On the three-item catalog A, B, C with the taxonomy of the scenario, the query
  \<^verbatim>\<open>Brand1 r17 sport\<close> is interpreted and filtered to the single item C, whichever of
  the two brand fields holds the brand.
\<close>

theorem scenario_filters_to_C:
  "deterministic_filter ''Brand1 r17 sport'' (scenario_catalog item_en) scenario_mapping =
     [item_en ''Brand1'' ''205/55R17'' [''sport'']] \<and>
   deterministic_filter ''Brand1 r17 sport'' (scenario_catalog item_cn) scenario_mapping =
     [item_cn ''Brand1'' ''205/55R17'' [''sport'']]"
  by code_simp

section \<open>Fallback policy\<close>

lemma ai_candidates_eq:
  "ai_candidates q tires km =
     (if deterministic_filter q tires km = [] then take 50 tires else deterministic_filter q tires km)"
  by (simp add: ai_candidates_def deterministic_filter_def Let_def slice_to_def)

lemma ai_search_and_rank_cases:
  "ai_search_and_rank rank q tires km key m =
     (case rank key q m (ai_candidates q tires km) of
        Inr (JArr xs) \<Rightarrow> Inr (map Ranked (slice_to xs m))
      | _ \<Rightarrow> Inr (map Candidate (slice_to (ai_candidates q tires km) m)))"
  by (simp add: ai_search_and_rank_def try_block_def Let_def split: sum.splits json.splits)

text \<open>
  C6. When the deterministic filter leaves nothing, the candidates are the first
  \<open>min 50 n\<close> items of the catalog of \<open>n\<close> items, in catalog order; when it leaves
  something, they are its result, uncapped. These candidates are what the ranking call
  is given: the result depends on the ranker only through its outcome on them.
\<close>

theorem fallback_candidates:
  "(deterministic_filter q tires km = [] \<longrightarrow>
      ai_candidates q tires km = take (min 50 (length tires)) tires \<and>
      length (ai_candidates q tires km) = min 50 (length tires)) \<and>
   (deterministic_filter q tires km \<noteq> [] \<longrightarrow>
      ai_candidates q tires km = deterministic_filter q tires km) \<and>
   ai_search_and_rank rank q tires km key m =
     ai_search_and_rank (\<lambda>_ _ _ _. rank key q m (ai_candidates q tires km)) q tires km key m"
  by (auto simp: ai_candidates_eq ai_search_and_rank_cases min_def)

theorem fallback_candidates_witness:
  "deterministic_filter ''anything r19'' sixty_items scenario_mapping = [] \<and>
   ai_candidates ''anything r19'' sixty_items scenario_mapping = take 50 sixty_items \<and>
   length (ai_candidates ''anything r19'' sixty_items scenario_mapping) = 50 \<and>
   ai_candidates ''Brand1 r17 sport'' (scenario_catalog item_en) scenario_mapping =
     [item_en ''Brand1'' ''205/55R17'' [''sport'']]"
proof -
  have e: "deterministic_filter ''anything r19'' sixty_items scenario_mapping = []"
    by code_simp
  have l: "length sixty_items = 60" by (simp add: sixty_items_def)
  have n: "deterministic_filter ''Brand1 r17 sport'' (scenario_catalog item_en) scenario_mapping =
      [item_en ''Brand1'' ''205/55R17'' [''sport'']]"
    by code_simp
  from fallback_candidates [of "''anything r19''" sixty_items scenario_mapping] e l
  have "ai_candidates ''anything r19'' sixty_items scenario_mapping = take 50 sixty_items \<and>
      length (ai_candidates ''anything r19'' sixty_items scenario_mapping) = 50"
    by simp
  moreover from fallback_candidates
    [of "''Brand1 r17 sport''" "scenario_catalog item_en" scenario_mapping] n
  have "ai_candidates ''Brand1 r17 sport'' (scenario_catalog item_en) scenario_mapping =
      [item_en ''Brand1'' ''205/55R17'' [''sport'']]"
    by simp
  ultimately show ?thesis using e by blast
qed

section \<open>Ranking orchestrator\<close>

lemma length_slice_to: "0 \<le> n \<Longrightarrow> int (length (slice_to xs n)) \<le> n"
  by (simp add: slice_to_def)




section \<open>Catalog store\<close>

text \<open>
  On a document whose top-level value is an object, \<open>load_data\<close> fails with the schema
  error exactly when one of the two keys is missing, and returns the document when both
  are there; on a missing file it fails with the not-found error.
\<close>

lemma load_data_object:
  "(load_data (Document (JObj kvs)) = Inl SchemaValueError \<longleftrightarrow>
      ''tires'' \<notin> fst ` set kvs \<or> ''keyword_mapping'' \<notin> fst ` set kvs) \<and>
   (''tires'' \<in> fst ` set kvs \<and> ''keyword_mapping'' \<in> fst ` set kvs \<longrightarrow>
      load_data (Document (JObj kvs)) = Inr (JObj kvs)) \<and>
   load_data Missing = Inl FileNotFoundError"
  by (auto simp: load_data_def)

text \<open>
  On a document that is a number, the membership test itself raises.
\<close>

lemma load_data_number: "load_data (Document (JNum 5)) = Inl TypeError"
  by (simp add: load_data_def)

text \<open>
  C9. A document that is the array of the two strings \<^verbatim>\<open>tires\<close> and
  \<^verbatim>\<open>keyword_mapping\<close> has neither top-level field, and \<open>load_data\<close> returns it
  without an error: the membership tests of the schema check hold of the elements of a
  list as they do of the keys of an object.
\<close>

theorem load_data_array_of_names:
  "load_data (Document (JArr [JStr ''tires'', JStr ''keyword_mapping''])) =
     Inr (JArr [JStr ''tires'', JStr ''keyword_mapping''])"
  by (simp add: load_data_def)

end
